theory Spec2Isabelle
  imports Main "HOL-Library.Sublist"
begin

section \<open>The retry engine of smonad.retry\<close>

text \<open>
  A shallow embedding of \<^verbatim>\<open>src/smonad/retry.py\<close>: the three-variant result, the
  replayed clock \<^verbatim>\<open>StoppedClock\<close>, the reporter functions and the loop of
  \<^verbatim>\<open>f_retry\<close>. Everything the Python does besides returning a value is explicit:
  \<^item> an exception is the \<open>Inl\<close> of a sum;
  \<^item> the process-wide clock is the list of entries its iterator still holds, passed in and
    handed back;
  \<^item> the state the wrapped operation shares with the clock's side effects (the
    \<^verbatim>\<open>ValueHolder\<close> of the tests) is a value of type \<open>'s\<close>, passed in and handed back;
  \<^item> what the session does to the outside is a list of events, in program order.
\<close>

subsection \<open>Values\<close>

text \<open>
  Times, the timeout and the delay are Python integers, as in the test suite; the
  floating-point samples of \<^verbatim>\<open>time.time()\<close> are not modelled.
\<close>

type_synonym time = int

text \<open>
  The payload of a result is any Python object. Three representatives are kept: a \<^verbatim>\<open>str\<close>
  (which has a \<^verbatim>\<open>format\<close> attribute), an integer and \<^verbatim>\<open>None\<close> (which have none).
\<close>

datatype payload = PyStr string | PyInt int | PyNone

text \<open>
  Modelled from the spec: the classes \<^verbatim>\<open>Success\<close> and \<^verbatim>\<open>Failure\<close> of
  \<^verbatim>\<open>smonad.types.ftry\<close> are imported by retry.py and are not among the sources. The
  spec has each variant carry a message payload, which retry.py reads as \<^verbatim>\<open>.value\<close>.
  \<^verbatim>\<open>class NotReady(Failure)\<close> is declared in retry.py. The dynamic class of a result
  object is its constructor; an operation that returns anything else breaks its contract
  and is excluded by the type.
\<close>

datatype result = Success payload | Failure payload | NotReady payload

fun val :: "result \<Rightarrow> payload" where
  "val (Success v) = v"
| "val (Failure v) = v"
| "val (NotReady v) = v"

text \<open>\<^verbatim>\<open>isinstance(result, NotReady)\<close>\<close>

fun isinstance_NotReady :: "result \<Rightarrow> bool" where
  "isinstance_NotReady (NotReady v) = True"
| "isinstance_NotReady (Success v) = False"
| "isinstance_NotReady (Failure v) = False"

text \<open>\<^verbatim>\<open>isinstance(result, Failure)\<close>: \<^verbatim>\<open>NotReady\<close> is a subclass of \<^verbatim>\<open>Failure\<close>.\<close>

fun isinstance_Failure :: "result \<Rightarrow> bool" where
  "isinstance_Failure (Failure v) = True"
| "isinstance_Failure (NotReady v) = True"
| "isinstance_Failure (Success v) = False"

text \<open>
  Modelled from the spec: \<^verbatim>\<open>smonad.utils.succeeded\<close> is imported by retry.py and is not
  among the sources. The spec: ``Classification predicate isSuccess(r) is true only for
  the Success variant.''
\<close>

fun succeeded :: "result \<Rightarrow> bool" where
  "succeeded (Success v) = True"
| "succeeded (Failure v) = False"
| "succeeded (NotReady v) = False"

text \<open>\<^verbatim>\<open>hasattr(value, 'format')\<close> and \<^verbatim>\<open>isinstance(value, str)\<close>\<close>

fun hasattr_format :: "payload \<Rightarrow> bool" where
  "hasattr_format (PyStr s) = True"
| "hasattr_format (PyInt i) = False"
| "hasattr_format PyNone = False"

fun isinstance_str :: "payload \<Rightarrow> bool" where
  "isinstance_str (PyStr s) = True"
| "isinstance_str (PyInt i) = False"
| "isinstance_str PyNone = False"

fun the_str :: "payload \<Rightarrow> string" where
  "the_str (PyStr s) = s"
| "the_str (PyInt i) = []"
| "the_str PyNone = []"

subsection \<open>Exceptions and events\<close>

datatype exn =
    StopIteration
  | UnboundLocalError
  | KeyError string
  | IndexError
  | ValueError
  | Injected string

text \<open>
  What a session does, in program order: \<open>Sample t\<close> is a \<^verbatim>\<open>clock.time()\<close> that returned
  \<open>t\<close>, \<open>Invoke r\<close> a call of the wrapped operation that returned \<open>r\<close>, \<open>Sleep d\<close> a
  \<^verbatim>\<open>clock.sleep(d)\<close>, \<open>Write s\<close> a \<^verbatim>\<open>sys.stdout.write(s)\<close> (the flush that follows
  writes nothing and is left out), and \<open>Print m err\<close> a call \<^verbatim>\<open>print_now(m, err=err)\<close>.
\<close>

datatype event =
    Sample time
  | Invoke result
  | Sleep int
  | Write string
  | Print string bool

text \<open>An action yields the events it got to emit and then a value or the exception raised.\<close>

type_synonym 'a action = "event list \<times> (exn + 'a)"

text \<open>
  Modelled from the spec: \<^verbatim>\<open>smonad.utils.print_now\<close> is imported by retry.py and is not
  among the sources. The spec has it emit the message to the standard output channel, or
  to the error channel when \<^verbatim>\<open>err\<close> is set; the call is recorded as one event and the
  line terminator it may add is not represented.
\<close>

definition print_now :: "string \<Rightarrow> bool \<Rightarrow> event list" where
  "print_now msg err = [Print msg err]"

subsection \<open>String formatting\<close>

text \<open>
  \<^verbatim>\<open>str.format\<close> is a builtin of the language, called with keyword arguments only. The
  engine's functions take it as the parameter \<open>fmt\<close>, from the template and the keyword
  arguments to the formatted string or the exception raised, and their theorems hold for
  every such function. \<open>str_format\<close> below computes it for templates made of literal text,
  the escapes \<^verbatim>\<open>{{\<close> and \<^verbatim>\<open>}}\<close>, and fields \<^verbatim>\<open>{name}\<close> without conversion, format
  specification, attribute or index; it is used at the concrete inputs of the examples.
\<close>

type_synonym formatter = "string \<Rightarrow> (string \<times> int) list \<Rightarrow> exn + string"

fun digit_char :: "nat \<Rightarrow> char" where
  "digit_char n = char_of (48 + n)"

fun str_nat :: "nat \<Rightarrow> string" where
  "str_nat n = (if n < 10 then [digit_char n] else str_nat (n div 10) @ [digit_char (n mod 10)])"

definition str_int :: "int \<Rightarrow> string" where
  "str_int i = (if i < 0 then CHR ''-'' # str_nat (nat (- i)) else str_nat (nat i))"

definition is_digit :: "char \<Rightarrow> bool" where
  "is_digit c = (c \<in> set ''0123456789'')"

text \<open>
  A field whose name is empty or a number asks for a positional argument, and there is
  none: \<^verbatim>\<open>IndexError\<close>. Any other name is looked up among the keyword arguments:
  \<^verbatim>\<open>KeyError\<close> when it is missing.
\<close>

definition get_field :: "string \<Rightarrow> (string \<times> int) list \<Rightarrow> exn + string" where
  "get_field name kw =
     (if list_all is_digit name then Inl IndexError
      else case map_of kw name of
             None \<Rightarrow> Inl (KeyError name)
           | Some v \<Rightarrow> Inr (str_int v))"

definition emit :: "string \<Rightarrow> exn + string \<Rightarrow> exn + string" where
  "emit s r = (case r of Inl e \<Rightarrow> Inl e | Inr t \<Rightarrow> Inr (s @ t))"

text \<open>
  One pass from left to right; the second argument is \<open>None\<close> in literal text and
  \<open>Some name\<close> inside a field whose name read so far is \<open>name\<close>. Errors come in the
  order of the text, as the builtin formats each field before it parses on.
\<close>

fun format_scan :: "(string \<times> int) list \<Rightarrow> string option \<Rightarrow> string \<Rightarrow> exn + string" where
  "format_scan kw None [] = Inr []"
| "format_scan kw (Some name) [] = Inl ValueError"
| "format_scan kw (Some name) (c # cs) =
     (if c = CHR ''}'' then
        (case get_field name kw of
           Inl e \<Rightarrow> Inl e
         | Inr s \<Rightarrow> emit s (format_scan kw None cs))
      else format_scan kw (Some (name @ [c])) cs)"
| "format_scan kw None [c] =
     (if c = CHR ''{'' \<or> c = CHR ''}'' then Inl ValueError else Inr [c])"
| "format_scan kw None (c # d # cs) =
     (if c = CHR ''{'' then
        (if d = CHR ''{'' then emit [c] (format_scan kw None cs)
         else format_scan kw (Some []) (d # cs))
      else if c = CHR ''}'' then
        (if d = CHR ''}'' then emit [c] (format_scan kw None cs) else Inl ValueError)
      else emit [c] (format_scan kw None (d # cs)))"

definition str_format :: formatter where
  "str_format template kw = format_scan kw None template"

declare str_nat.simps [simp del]

subsection \<open>The clock\<close>

text \<open>
  \<^verbatim>\<open>StoppedClock\<close> replays the list given to \<^verbatim>\<open>set_times\<close>: an entry is a plain value,
  a pair of a value and a callable run for its side effect before the value is returned,
  or a pair of a value and an exception, which is raised. The iterator raises
  \<^verbatim>\<open>StopIteration\<close> when the list is used up. \<^verbatim>\<open>SystemClock\<close> reads the wall clock,
  which a function cannot do; a session against it sees a sequence of plain samples,
  which is what a \<^verbatim>\<open>StoppedClock\<close> replays.
\<close>

datatype 's tick = Plain time | Effect time "'s \<Rightarrow> 's" | Raising time exn

type_synonym 's clock = "'s tick list"

text \<open>\<^verbatim>\<open>StoppedClock.time\<close>: the sample or the exception, the rest of the iterator, the shared state.\<close>

fun StoppedClock_time :: "'s clock \<Rightarrow> 's \<Rightarrow> (exn + time) \<times> 's clock \<times> 's" where
  "StoppedClock_time [] u = (Inl StopIteration, [], u)"
| "StoppedClock_time (Plain t # rest) u = (Inr t, rest, u)"
| "StoppedClock_time (Raising t e # rest) u = (Inl e, rest, u)"
| "StoppedClock_time (Effect t side_effect # rest) u = (Inr t, rest, side_effect u)"

text \<open>\<^verbatim>\<open>StoppedClock.sleep\<close> does not sleep; the call is recorded.\<close>

definition StoppedClock_sleep :: "int \<Rightarrow> event list" where
  "StoppedClock_sleep seconds = [Sleep seconds]"

subsection \<open>The reporter\<close>

text \<open>\<^verbatim>\<open>print_start_message(start_message, start_time)\<close>\<close>

definition print_start_message :: "formatter \<Rightarrow> string \<Rightarrow> time \<Rightarrow> unit action" where
  "print_start_message fmt start_message start_time =
     (if sublist ''{start_time}'' start_message then
        (case fmt start_message [(''start_time'', start_time)] of
           Inl e \<Rightarrow> ([], Inl e)
         | Inr start_message_formatted \<Rightarrow> (print_now start_message_formatted False, Inr ()))
      else (print_now start_message False, Inr ()))"

text \<open>\<^verbatim>\<open>print_end_message(result, total_time, retry_count)\<close>\<close>

definition format_end :: "formatter \<Rightarrow> result \<Rightarrow> time \<Rightarrow> nat \<Rightarrow> exn + string" where
  "format_end fmt result total_time retry_count =
     fmt (the_str (val result)) [(''total_time'', total_time), (''retries'', int retry_count)]"

definition print_end_message :: "formatter \<Rightarrow> result \<Rightarrow> time \<Rightarrow> nat \<Rightarrow> unit action" where
  "print_end_message fmt result total_time retry_count =
     (if \<not> hasattr_format (val result) then ([Write ''\<newline>''], Inr ())
      else if succeeded result then
        (case format_end fmt result total_time retry_count of
           Inl e \<Rightarrow> ([Write ''\<newline>''], Inl e)
         | Inr m \<Rightarrow> (Write ''\<newline>'' # print_now m False, Inr ()))
      else if isinstance_NotReady result then
        (case format_end fmt result total_time retry_count of
           Inl e \<Rightarrow> ([Write ''\<newline>''], Inl e)
         | Inr m \<Rightarrow> (Write ''\<newline>'' # print_now (m @ ''  Giving up.'') True, Inr ()))
      else
        (case format_end fmt result total_time retry_count of
           Inl e \<Rightarrow> ([Write ''\<newline>''], Inl e)
         | Inr m \<Rightarrow> (Write ''\<newline>'' # print_now m True, Inr ())))"

subsection \<open>The loop\<close>

text \<open>
  What is left when the \<^verbatim>\<open>while\<close> of \<^verbatim>\<open>f_retry\<close> is over: the events of the loop, the
  clock and the shared state, and either the exception that left the loop or the local
  variables \<^verbatim>\<open>current_time\<close>, \<^verbatim>\<open>tick_counter.count\<close> and \<^verbatim>\<open>result\<close> (\<open>None\<close> while
  no attempt has bound it).
\<close>

record 's loop_exit =
  loop_events :: "event list"
  loop_clock :: "'s clock"
  loop_state :: "'s"
  locals :: "exn + (time \<times> nat \<times> result option)"

text \<open>The progress marker of one \<^verbatim>\<open>NotReady\<close>, for the count after its increment.\<close>

definition tick_output :: "bool \<Rightarrow> nat \<Rightarrow> event list" where
  "tick_output silent count =
     (if \<not> silent then
        Write ''.'' # (if count mod 80 = 0 then [Write ''\<newline>''] else [])
      else [])"

text \<open>The events of one turn come before those of the turns that follow.\<close>

definition prepend :: "event list \<Rightarrow> 's loop_exit \<Rightarrow> 's loop_exit" where
  "prepend evs x = x\<lparr>loop_events := evs @ loop_events x\<rparr>"

text \<open>
  The \<^verbatim>\<open>while current_time < deadline\<close> of \<^verbatim>\<open>f_retry\<close>, entered with the current
  values of \<^verbatim>\<open>current_time\<close>, \<^verbatim>\<open>tick_counter.count\<close> and \<^verbatim>\<open>result\<close>. One turn
  invokes the operation and increments the counter; on a \<^verbatim>\<open>NotReady\<close> it writes the
  marker unless silent, sleeps and samples the clock, and an exception of the clock leaves
  the loop and the function; on any other result it breaks. Each turn that goes on takes
  one entry from the clock, which is why the recursion ends.
\<close>

function retry_loop ::
  "('a \<Rightarrow> 's \<Rightarrow> result \<times> 's) \<Rightarrow> 'a \<Rightarrow> int \<Rightarrow> bool \<Rightarrow> time \<Rightarrow>
   time \<Rightarrow> nat \<Rightarrow> result option \<Rightarrow> 's clock \<Rightarrow> 's \<Rightarrow> 's loop_exit" where
  "retry_loop callable_object args delay silent deadline current_time count result clk u =
     (if current_time < deadline then
        (case callable_object args u of (r, u1) \<Rightarrow>
           if isinstance_NotReady r then
             (case StoppedClock_time clk u1 of
                (Inl e, clk2, u2) \<Rightarrow>
                  \<lparr>loop_events =
                     Invoke r # tick_output silent (Suc count) @ StoppedClock_sleep delay,
                   loop_clock = clk2, loop_state = u2, locals = Inl e\<rparr>
              | (Inr t, clk2, u2) \<Rightarrow>
                  prepend
                    (Invoke r # tick_output silent (Suc count) @ StoppedClock_sleep delay
                       @ [Sample t])
                    (retry_loop callable_object args delay silent deadline
                       t (Suc count) (Some r) clk2 u2))
           else
             \<lparr>loop_events = [Invoke r], loop_clock = clk, loop_state = u1,
              locals = Inr (current_time, Suc count, Some r)\<rparr>)
      else
        \<lparr>loop_events = [], loop_clock = clk, loop_state = u,
         locals = Inr (current_time, count, result)\<rparr>)"
  by pat_completeness auto

termination retry_loop
  by (relation "measure (\<lambda>(callable_object, args, delay, silent, deadline,
                           current_time, count, result, clk, u). length clk)")
     (auto elim!: StoppedClock_time.elims [OF sym])

declare retry_loop.simps [simp del]

subsection \<open>The wrapped callable\<close>

text \<open>
  What a call of the wrapped callable leaves: the events of the session, the clock and the
  shared state, and the result returned or the exception that ended the call.
\<close>

record 's outcome =
  events :: "event list"
  clock_left :: "'s clock"
  state_left :: "'s"
  returned :: "exn + result"

text \<open>\<^verbatim>\<open>if start_message and not silent\<close>: \<^verbatim>\<open>None\<close> and the empty string are false.\<close>

definition announce_start :: "formatter \<Rightarrow> string option \<Rightarrow> bool \<Rightarrow> time \<Rightarrow> unit action" where
  "announce_start fmt start_message silent start_time =
     (case start_message of
        None \<Rightarrow> ([], Inr ())
      | Some m \<Rightarrow>
          if m \<noteq> [] \<and> \<not> silent then print_start_message fmt m start_time
          else ([], Inr ()))"

text \<open>
  The end of \<^verbatim>\<open>f_retry\<close>, from \<^verbatim>\<open>total_time = current_time - start_time\<close> on. Reading
  \<^verbatim>\<open>result\<close> when no attempt has bound it raises \<^verbatim>\<open>UnboundLocalError\<close>. The string that
  \<^verbatim>\<open>result.value.format(...)\<close> builds in the last statement is dropped; an exception it
  raises is not.
\<close>

definition finish :: "formatter \<Rightarrow> bool \<Rightarrow> time \<Rightarrow> time \<Rightarrow> nat \<Rightarrow> result option \<Rightarrow> result action" where
  "finish fmt silent start_time current_time count result =
     (let total_time = current_time - start_time in
      case result of
        None \<Rightarrow> ([], Inl UnboundLocalError)
      | Some r \<Rightarrow>
          (case (if \<not> silent then print_end_message fmt r total_time count else ([], Inr ())) of
             (evs, Inl e) \<Rightarrow> (evs, Inl e)
           | (evs, Inr _) \<Rightarrow>
               if isinstance_str (val r) then
                 (case format_end fmt r total_time count of
                    Inl e \<Rightarrow> (evs, Inl e)
                  | Inr _ \<Rightarrow> (evs, Inr r))
               else (evs, Inr r)))"

text \<open>
  \<^verbatim>\<open>f_retry(*args, **kwargs)\<close>, with the variables it closes over (\<^verbatim>\<open>callable_object\<close>,
  \<^verbatim>\<open>timeout\<close>, \<^verbatim>\<open>delay\<close>, \<^verbatim>\<open>start_message\<close>, \<^verbatim>\<open>silent\<close>) as arguments. The wrapped
  operation takes the caller's arguments and the shared state and returns one of the
  three results.
\<close>

definition f_retry ::
  "formatter \<Rightarrow> ('a \<Rightarrow> 's \<Rightarrow> result \<times> 's) \<Rightarrow> int \<Rightarrow> int \<Rightarrow> string option \<Rightarrow> bool \<Rightarrow>
   'a \<Rightarrow> 's clock \<Rightarrow> 's \<Rightarrow> 's outcome" where
  "f_retry fmt callable_object timeout delay start_message silent args clk u =
     (case StoppedClock_time clk u of
        (Inl e, clk1, u1) \<Rightarrow>
          \<lparr>events = [], clock_left = clk1, state_left = u1, returned = Inl e\<rparr>
      | (Inr start_time, clk1, u1) \<Rightarrow>
          (let deadline = start_time + timeout in
           case announce_start fmt start_message silent start_time of
             (evs0, Inl e) \<Rightarrow>
               \<lparr>events = Sample start_time # evs0, clock_left = clk1, state_left = u1,
                returned = Inl e\<rparr>
           | (evs0, Inr _) \<Rightarrow>
               (let x = retry_loop callable_object args delay silent deadline
                          start_time 0 None clk1 u1
                in case locals x of
                     Inl e \<Rightarrow>
                       \<lparr>events = Sample start_time # evs0 @ loop_events x,
                        clock_left = loop_clock x, state_left = loop_state x,
                        returned = Inl e\<rparr>
                   | Inr (current_time, count, result) \<Rightarrow>
                       (case finish fmt silent start_time current_time count result of
                          (evs1, ret) \<Rightarrow>
                            \<lparr>events = Sample start_time # evs0 @ loop_events x @ evs1,
                             clock_left = loop_clock x, state_left = loop_state x,
                             returned = ret\<rparr>))))"

text \<open>\<^verbatim>\<open>retry(callable_object, timeout, delay, start_message, silent)\<close> returns the closure.\<close>

definition retry ::
  "formatter \<Rightarrow> ('a \<Rightarrow> 's \<Rightarrow> result \<times> 's) \<Rightarrow> int \<Rightarrow> int \<Rightarrow> string option \<Rightarrow> bool \<Rightarrow>
   ('a \<Rightarrow> 's clock \<Rightarrow> 's \<Rightarrow> 's outcome)" where
  "retry fmt callable_object timeout delay start_message silent =
     f_retry fmt callable_object timeout delay start_message silent"

text \<open>\<^verbatim>\<open>retry_decorator(timeout, delay, start_message, silent)\<close> returns \<^verbatim>\<open>deco_retry\<close>.\<close>

definition retry_decorator ::
  "formatter \<Rightarrow> int \<Rightarrow> int \<Rightarrow> string option \<Rightarrow> bool \<Rightarrow>
   (('a \<Rightarrow> 's \<Rightarrow> result \<times> 's) \<Rightarrow> ('a \<Rightarrow> 's clock \<Rightarrow> 's \<Rightarrow> 's outcome))" where
  "retry_decorator fmt timeout delay start_message silent =
     (\<lambda>f. retry fmt f timeout delay start_message silent)"

subsection \<open>The operation of the test suite\<close>

text \<open>
  \<^verbatim>\<open>check_value\<close> of \<^verbatim>\<open>src/tests/test_retry.py\<close>. The shared state is the value held by
  the \<^verbatim>\<open>ValueHolder\<close>: \<open>Some True\<close>, \<open>Some False\<close>, or \<open>None\<close> for anything else.
\<close>

definition check_value :: "unit \<Rightarrow> bool option \<Rightarrow> result \<times> bool option" where
  "check_value args value_holder =
     (if value_holder = Some True then
        (Success (PyStr ''Check succeeded after {total_time} seconds and {retries} retries''),
         value_holder)
      else if value_holder = Some False then
        (NotReady (PyStr ''Check still not ready after {total_time} seconds and {retries} retries''),
         value_holder)
      else
        (Failure (PyStr ''Check failed after {total_time} seconds and {retries} retries''),
         value_holder))"

text \<open>\<^verbatim>\<open>ValueHolder.set\<close>, the side effect the tests attach to a clock entry.\<close>

definition set_value :: "bool option \<Rightarrow> bool option \<Rightarrow> bool option" where
  "set_value v value_holder = v"

text \<open>An operation that returns the same result at every call and leaves the state alone.\<close>

definition always :: "result \<Rightarrow> unit \<Rightarrow> 's \<Rightarrow> result \<times> 's" where
  "always r args u = (r, u)"

subsection \<open>Reading a session's events\<close>

text \<open>The results of the invocations of the wrapped operation, in order.\<close>

fun invoked :: "event \<Rightarrow> result list" where
  "invoked (Invoke r) = [r]"
| "invoked (Sample t) = []"
| "invoked (Sleep d) = []"
| "invoked (Write s) = []"
| "invoked (Print m err) = []"

definition invocations :: "event list \<Rightarrow> result list" where
  "invocations evs = concat (map invoked evs)"

text \<open>The clock samples, in order.\<close>

fun sampled :: "event \<Rightarrow> time list" where
  "sampled (Sample t) = [t]"
| "sampled (Invoke r) = []"
| "sampled (Sleep d) = []"
| "sampled (Write s) = []"
| "sampled (Print m err) = []"

definition samples :: "event list \<Rightarrow> time list" where
  "samples evs = concat (map sampled evs)"

text \<open>The characters that \<^verbatim>\<open>sys.stdout.write\<close> wrote.\<close>

fun written :: "event \<Rightarrow> string" where
  "written (Write s) = s"
| "written (Sample t) = []"
| "written (Invoke r) = []"
| "written (Sleep d) = []"
| "written (Print m err) = []"

definition stdout_written :: "event list \<Rightarrow> string" where
  "stdout_written evs = concat (map written evs)"

text \<open>The messages \<^verbatim>\<open>print_now\<close> was given for the error channel.\<close>

fun printed_err :: "event \<Rightarrow> string list" where
  "printed_err (Print m err) = (if err then [m] else [])"
| "printed_err (Sample t) = []"
| "printed_err (Invoke r) = []"
| "printed_err (Sleep d) = []"
| "printed_err (Write s) = []"

definition error_messages :: "event list \<Rightarrow> string list" where
  "error_messages evs = concat (map printed_err evs)"

text \<open>The messages \<^verbatim>\<open>print_now\<close> was given for standard output.\<close>

fun printed_out :: "event \<Rightarrow> string list" where
  "printed_out (Print m err) = (if err then [] else [m])"
| "printed_out (Sample t) = []"
| "printed_out (Invoke r) = []"
| "printed_out (Sleep d) = []"
| "printed_out (Write s) = []"

definition output_messages :: "event list \<Rightarrow> string list" where
  "output_messages evs = concat (map printed_out evs)"

text \<open>
  Every attempt and every later sample is made while the latest sample is below the
  deadline: \<open>in_time deadline t evs\<close> reads \<open>evs\<close> with \<open>t\<close> the latest sample so far.
\<close>

fun in_time :: "time \<Rightarrow> time \<Rightarrow> event list \<Rightarrow> bool" where
  "in_time deadline t [] = True"
| "in_time deadline t (Invoke r # evs) = (t < deadline \<and> in_time deadline t evs)"
| "in_time deadline t (Sample t' # evs) = (t < deadline \<and> in_time deadline t' evs)"
| "in_time deadline t (Sleep d # evs) = in_time deadline t evs"
| "in_time deadline t (Write s # evs) = in_time deadline t evs"
| "in_time deadline t (Print m err # evs) = in_time deadline t evs"

text \<open>
  The progress output in the spec's words: \<open>n\<close> markers, a line break after every 80th,
  so that the text is full lines of 80 markers and a last line of fewer.
\<close>

definition progress_text :: "nat \<Rightarrow> string" where
  "progress_text n =
     concat (replicate (n div 80) (replicate 80 CHR ''.'' @ ''\<newline>''))
       @ replicate (n mod 80) CHR ''.''"

text \<open>The characters of the markers for the counts \<open>count + 1\<close>, ..., \<open>count + n\<close>.\<close>

fun ticks_text :: "nat \<Rightarrow> nat \<Rightarrow> string" where
  "ticks_text count 0 = []"
| "ticks_text count (Suc n) =
     stdout_written (tick_output False (Suc count)) @ ticks_text (Suc count) n"

section \<open>Properties\<close>

subsection \<open>Events\<close>

lemma invocations_simps [simp]:
  "invocations [] = []"
  "invocations (e # evs) = invoked e @ invocations evs"
  "invocations (xs @ ys) = invocations xs @ invocations ys"
  by (simp_all add: invocations_def)

lemma samples_simps [simp]:
  "samples [] = []"
  "samples (e # evs) = sampled e @ samples evs"
  "samples (xs @ ys) = samples xs @ samples ys"
  by (simp_all add: samples_def)

lemma stdout_written_simps [simp]:
  "stdout_written [] = []"
  "stdout_written (e # evs) = written e @ stdout_written evs"
  "stdout_written (xs @ ys) = stdout_written xs @ stdout_written ys"
  by (simp_all add: stdout_written_def)

lemma tick_output_quiet [simp]:
  "invocations (tick_output silent n) = []"
  "samples (tick_output silent n) = []"
  by (simp_all add: tick_output_def)

lemma sleep_quiet [simp]:
  "invocations (StoppedClock_sleep d) = []"
  "samples (StoppedClock_sleep d) = []"
  "stdout_written (StoppedClock_sleep d) = []"
  by (simp_all add: StoppedClock_sleep_def)

lemma prepend_simps [simp]:
  "loop_events (prepend evs x) = evs @ loop_events x"
  "loop_clock (prepend evs x) = loop_clock x"
  "loop_state (prepend evs x) = loop_state x"
  "locals (prepend evs x) = locals x"
  by (simp_all add: prepend_def)

subsection \<open>One turn of the loop\<close>

text \<open>The four ways through one turn of the loop.\<close>

lemma loop_over:
  "\<not> current_time < deadline \<Longrightarrow>
   retry_loop f a delay silent deadline current_time count result clk u =
     \<lparr>loop_events = [], loop_clock = clk, loop_state = u,
      locals = Inr (current_time, count, result)\<rparr>"
  by (subst retry_loop.simps) simp

lemma loop_break:
  "current_time < deadline \<Longrightarrow> f a u = (r, u1) \<Longrightarrow> \<not> isinstance_NotReady r \<Longrightarrow>
   retry_loop f a delay silent deadline current_time count result clk u =
     \<lparr>loop_events = [Invoke r], loop_clock = clk, loop_state = u1,
      locals = Inr (current_time, Suc count, Some r)\<rparr>"
  by (subst retry_loop.simps) simp

lemma loop_clock_error:
  "current_time < deadline \<Longrightarrow> f a u = (r, u1) \<Longrightarrow> isinstance_NotReady r \<Longrightarrow>
   StoppedClock_time clk u1 = (Inl e, clk2, u2) \<Longrightarrow>
   retry_loop f a delay silent deadline current_time count result clk u =
     \<lparr>loop_events = Invoke r # tick_output silent (Suc count) @ StoppedClock_sleep delay,
      loop_clock = clk2, loop_state = u2, locals = Inl e\<rparr>"
  by (subst retry_loop.simps) simp

lemma loop_again:
  "current_time < deadline \<Longrightarrow> f a u = (r, u1) \<Longrightarrow> isinstance_NotReady r \<Longrightarrow>
   StoppedClock_time clk u1 = (Inr t, clk2, u2) \<Longrightarrow>
   retry_loop f a delay silent deadline current_time count result clk u =
     prepend (Invoke r # tick_output silent (Suc count) @ StoppedClock_sleep delay @ [Sample t])
       (retry_loop f a delay silent deadline t (Suc count) (Some r) clk2 u2)"
  by (subst retry_loop.simps) simp

text \<open>Induction over the turns of the loop.\<close>

lemma loop_induct [case_names over break clock_error again]:
  assumes "\<And>current_time count result clk u.
             \<not> current_time < deadline \<Longrightarrow> P current_time count result clk u"
    and "\<And>current_time count result clk u r u1.
             current_time < deadline \<Longrightarrow> f a u = (r, u1) \<Longrightarrow> \<not> isinstance_NotReady r \<Longrightarrow>
             P current_time count result clk u"
    and "\<And>current_time count result clk u r u1 e clk2 u2.
             current_time < deadline \<Longrightarrow> f a u = (r, u1) \<Longrightarrow> isinstance_NotReady r \<Longrightarrow>
             StoppedClock_time clk u1 = (Inl e, clk2, u2) \<Longrightarrow>
             P current_time count result clk u"
    and "\<And>current_time count result clk u r u1 t clk2 u2.
             current_time < deadline \<Longrightarrow> f a u = (r, u1) \<Longrightarrow> isinstance_NotReady r \<Longrightarrow>
             StoppedClock_time clk u1 = (Inr t, clk2, u2) \<Longrightarrow>
             P t (Suc count) (Some r) clk2 u2 \<Longrightarrow>
             P current_time count result clk u"
  shows "P current_time count result clk u"
proof -
  have turn: "P current_time count result clk u"
    if later: "\<And>r u1 t clk2 u2. StoppedClock_time clk u1 = (Inr t, clk2, u2) \<Longrightarrow>
                 P t (Suc count) (Some r) clk2 u2"
    for current_time count result clk u
  proof (cases "current_time < deadline")
    case False
    then show ?thesis by (rule assms(1))
  next
    case True
    obtain r u1 where r: "f a u = (r, u1)" by (cases "f a u")
    show ?thesis
    proof (cases "isinstance_NotReady r")
      case False
      with True r show ?thesis by (rule assms(2))
    next
      case nr: True
      obtain s clk2 u2 where c: "StoppedClock_time clk u1 = (s, clk2, u2)"
        by (cases "StoppedClock_time clk u1")
      show ?thesis
      proof (cases s)
        case (Inl e)
        with c have "StoppedClock_time clk u1 = (Inl e, clk2, u2)" by simp
        with True r nr show ?thesis by (rule assms(3))
      next
        case (Inr t)
        with c have c': "StoppedClock_time clk u1 = (Inr t, clk2, u2)" by simp
        from True r nr c' later [OF c'] show ?thesis by (rule assms(4))
      qed
    qed
  qed
  have "\<forall>current_time count result u. P current_time count result clk u"
  proof (induction clk)
    case Nil
    show ?case
    proof (intro allI)
      fix current_time count result u
      show "P current_time count result [] u" by (rule turn) simp
    qed
  next
    case (Cons x clk)
    show ?case
    proof (intro allI)
      fix current_time count result u
      show "P current_time count result (x # clk) u"
      proof (rule turn)
        fix r :: result and u1 t clk2 u2
        assume "StoppedClock_time (x # clk) u1 = (Inr t, clk2, u2)"
        then have "clk2 = clk" by (cases x) auto
        with Cons.IH show "P t (Suc count) (Some r) clk2 u2" by simp
      qed
    qed
  qed
  then show ?thesis by simp
qed

lemma loop_count:
  "locals (retry_loop f a delay silent deadline current_time count result clk u) = Inr (c, n, res)
   \<Longrightarrow> n = count + length (invocations
         (loop_events (retry_loop f a delay silent deadline current_time count result clk u)))"
  by (induction current_time count result clk u rule: loop_induct [where f = f and a = a and deadline = deadline])
     (simp_all add: loop_over loop_break loop_clock_error loop_again)

subsection \<open>What the loop leaves\<close>

lemma in_time_skip [simp]:
  "in_time deadline t (tick_output silent n @ evs) = in_time deadline t evs"
  "in_time deadline t (StoppedClock_sleep d @ evs) = in_time deadline t evs"
  "in_time deadline t (StoppedClock_sleep d) = True"
  by (simp_all add: tick_output_def StoppedClock_sleep_def)

lemma loop_time:
  "locals (retry_loop f a delay silent deadline current_time count result clk u) = Inr (c, n, res)
   \<Longrightarrow> c = last (current_time # samples
         (loop_events (retry_loop f a delay silent deadline current_time count result clk u)))"
  by (induction current_time count result clk u rule: loop_induct [where f = f and a = a and deadline = deadline])
     (simp_all add: loop_over loop_break loop_clock_error loop_again)

lemma loop_result:
  "locals (retry_loop f a delay silent deadline current_time count result clk u) = Inr (c, n, res)
   \<Longrightarrow> res = (case invocations
         (loop_events (retry_loop f a delay silent deadline current_time count result clk u)) of
         [] \<Rightarrow> result | r # rs \<Rightarrow> Some (last (r # rs)))"
  by (induction current_time count result clk u rule: loop_induct [where f = f and a = a and deadline = deadline])
     (auto simp add: loop_over loop_break loop_clock_error loop_again split: list.splits)

lemma loop_in_time:
  "in_time deadline current_time
     (loop_events (retry_loop f a delay silent deadline current_time count result clk u))"
  by (induction current_time count result clk u rule: loop_induct [where f = f and a = a and deadline = deadline])
     (simp_all add: loop_over loop_break loop_clock_error loop_again)

lemma loop_exit_kind:
  "locals (retry_loop f a delay silent deadline current_time count result clk u) = Inr (c, n, Some r')
   \<Longrightarrow> (\<And>r0. result = Some r0 \<Longrightarrow> isinstance_NotReady r0)
   \<Longrightarrow> isinstance_NotReady r' \<longleftrightarrow> deadline \<le> c"
  by (induction current_time count result clk u rule: loop_induct [where f = f and a = a and deadline = deadline])
     (auto simp add: loop_over loop_break loop_clock_error loop_again)

lemma loop_butlast:
  "list_all isinstance_NotReady (butlast (invocations
     (loop_events (retry_loop f a delay silent deadline current_time count result clk u))))"
  by (induction current_time count result clk u rule: loop_induct [where f = f and a = a and deadline = deadline])
     (simp_all add: loop_over loop_break loop_clock_error loop_again)

lemma loop_written:
  "stdout_written (loop_events (retry_loop f a delay False deadline current_time count result clk u))
   = ticks_text count (length (filter isinstance_NotReady (invocations
       (loop_events (retry_loop f a delay False deadline current_time count result clk u)))))"
  by (induction current_time count result clk u rule: loop_induct [where f = f and a = a and deadline = deadline])
     (simp_all add: loop_over loop_break loop_clock_error loop_again)

lemma loop_written_silent:
  "stdout_written (loop_events (retry_loop f a delay True deadline current_time count result clk u)) = []"
  by (induction current_time count result clk u rule: loop_induct [where f = f and a = a and deadline = deadline])
     (simp_all add: loop_over loop_break loop_clock_error loop_again tick_output_def)

subsection \<open>Progress markers\<close>

lemma ticks_text_snoc:
  "ticks_text count (Suc n) = ticks_text count n @ stdout_written (tick_output False (count + Suc n))"
  by (induction n arbitrary: count) simp_all

lemma concat_replicate_snoc:
  "concat (replicate (Suc q) l) = concat (replicate q l) @ l"
  by (induction q) simp_all

lemma progress_text_Suc:
  "progress_text (Suc n) = progress_text n @ stdout_written (tick_output False (Suc n))"
proof (cases "Suc n mod 80 = 0")
  case True
  then have m: "n mod 80 = 79" by (simp add: mod_Suc split: if_splits)
  from True have d: "Suc n div 80 = Suc (n div 80)" by (simp add: div_Suc)
  have "(80::nat) = Suc 79" by simp
  then have line: "replicate 80 CHR ''.'' = replicate 79 CHR ''.'' @ ''.''"
    by (simp only: replicate_Suc replicate_append_same)
  show ?thesis
    unfolding progress_text_def d m True
    by (simp add: tick_output_def True concat_replicate_snoc line del: replicate_Suc)
next
  case False
  then have m: "Suc n mod 80 = Suc (n mod 80)" by (simp add: mod_Suc split: if_splits)
  from False have d: "Suc n div 80 = n div 80" by (simp add: div_Suc)
  show ?thesis
    unfolding progress_text_def d m
    by (simp add: tick_output_def False replicate_append_same)
qed

lemma ticks_text_progress: "ticks_text 0 n = progress_text n"
proof (induction n)
  case 0
  show ?case by (simp add: progress_text_def)
next
  case (Suc n)
  show ?case
    by (simp only: ticks_text_snoc progress_text_Suc Suc.IH add_0)
qed

lemma progress_text_markers: "length (filter (\<lambda>c. c = CHR ''.'') (progress_text n)) = n"
proof (induction n)
  case 0
  show ?case by (simp add: progress_text_def)
next
  case (Suc n)
  then show ?case by (simp add: progress_text_Suc tick_output_def)
qed

subsection \<open>The reporter and the wrapped callable\<close>

lemma print_now_quiet [simp]:
  "invocations (print_now m err) = []"
  "samples (print_now m err) = []"
  "stdout_written (print_now m err) = []"
  by (simp_all add: print_now_def)

lemma print_start_message_quiet:
  "invocations (fst (print_start_message fmt m s)) = []"
  "samples (fst (print_start_message fmt m s)) = []"
  "stdout_written (fst (print_start_message fmt m s)) = []"
  by (simp_all add: print_start_message_def split: sum.splits)

lemma announce_start_quiet [simp]:
  "invocations (fst (announce_start fmt start_message silent s)) = []"
  "samples (fst (announce_start fmt start_message silent s)) = []"
  "stdout_written (fst (announce_start fmt start_message silent s)) = []"
  by (simp_all add: announce_start_def print_start_message_quiet split: option.splits)

lemma print_end_message_quiet [simp]:
  "invocations (fst (print_end_message fmt r t n)) = []"
  "samples (fst (print_end_message fmt r t n)) = []"
  "stdout_written (fst (print_end_message fmt r t n)) = ''\<newline>''"
  by (simp_all add: print_end_message_def split: sum.splits)

lemma finish_events:
  "fst (finish fmt silent s c n res) =
     (case res of
        None \<Rightarrow> []
      | Some r \<Rightarrow> if silent then [] else fst (print_end_message fmt r (c - s) n))"
  by (auto simp add: finish_def Let_def split: option.splits sum.splits prod.splits)

lemma finish_quiet [simp]:
  "invocations (fst (finish fmt silent s c n res)) = []"
  "samples (fst (finish fmt silent s c n res)) = []"
  by (simp_all add: finish_events split: option.splits)

lemma finish_returns:
  "snd (finish fmt silent s c n res) = Inr r \<Longrightarrow> res = Some r"
  by (auto simp add: finish_def Let_def split: option.splits sum.splits prod.splits if_splits)

text \<open>The four ways through a call of the wrapped callable.\<close>

lemma f_retry_cases [case_names entry_error start_error loop_error finished]:
  fixes f :: "'a \<Rightarrow> 's \<Rightarrow> result \<times> 's"
  obtains
    (entry_error) e clk1 u1 where
      "StoppedClock_time clk u = (Inl e, clk1, u1)"
      "f_retry fmt f timeout delay start_message silent a clk u =
         \<lparr>events = [], clock_left = clk1, state_left = u1, returned = Inl e\<rparr>"
  | (start_error) s clk1 u1 e where
      "StoppedClock_time clk u = (Inr s, clk1, u1)"
      "snd (announce_start fmt start_message silent s) = Inl e"
      "f_retry fmt f timeout delay start_message silent a clk u =
         \<lparr>events = Sample s # fst (announce_start fmt start_message silent s),
          clock_left = clk1, state_left = u1, returned = Inl e\<rparr>"
  | (loop_error) s clk1 u1 e where
      "StoppedClock_time clk u = (Inr s, clk1, u1)"
      "snd (announce_start fmt start_message silent s) = Inr ()"
      "locals (retry_loop f a delay silent (s + timeout) s 0 None clk1 u1) = Inl e"
      "f_retry fmt f timeout delay start_message silent a clk u =
         \<lparr>events = Sample s # fst (announce_start fmt start_message silent s)
            @ loop_events (retry_loop f a delay silent (s + timeout) s 0 None clk1 u1),
          clock_left = loop_clock (retry_loop f a delay silent (s + timeout) s 0 None clk1 u1),
          state_left = loop_state (retry_loop f a delay silent (s + timeout) s 0 None clk1 u1),
          returned = Inl e\<rparr>"
  | (finished) s clk1 u1 c n res where
      "StoppedClock_time clk u = (Inr s, clk1, u1)"
      "snd (announce_start fmt start_message silent s) = Inr ()"
      "locals (retry_loop f a delay silent (s + timeout) s 0 None clk1 u1) = Inr (c, n, res)"
      "f_retry fmt f timeout delay start_message silent a clk u =
         \<lparr>events = Sample s # fst (announce_start fmt start_message silent s)
            @ loop_events (retry_loop f a delay silent (s + timeout) s 0 None clk1 u1)
            @ fst (finish fmt silent s c n res),
          clock_left = loop_clock (retry_loop f a delay silent (s + timeout) s 0 None clk1 u1),
          state_left = loop_state (retry_loop f a delay silent (s + timeout) s 0 None clk1 u1),
          returned = snd (finish fmt silent s c n res)\<rparr>"
proof -
  obtain x clk1 u1 where c: "StoppedClock_time clk u = (x, clk1, u1)"
    by (cases "StoppedClock_time clk u")
  show thesis
  proof (cases x)
    case (Inl e)
    with c show thesis by (intro entry_error [of e clk1 u1]) (simp_all add: f_retry_def Let_def)
  next
    case (Inr s)
    note s = this
    obtain evs0 y where st: "announce_start fmt start_message silent s = (evs0, y)"
      by (cases "announce_start fmt start_message silent s")
    show thesis
    proof (cases y)
      case (Inl e)
      with c s st show thesis
        by (intro start_error [of s clk1 u1 e]) (simp_all add: f_retry_def Let_def)
    next
      case (Inr unit)
      note y = this
      show thesis
      proof (cases "locals (retry_loop f a delay silent (s + timeout) s 0 None clk1 u1)")
        case (Inl e)
        with c s st y show thesis
          by (intro loop_error [of s clk1 u1 e]) (simp_all add: f_retry_def Let_def)
      next
        case (Inr l)
        obtain c' n res where l: "l = (c', n, res)" by (cases l)
        with Inr c s st y show thesis
          by (intro finished [of s clk1 u1 c' n res])
             (simp_all add: f_retry_def Let_def split: prod.splits)
      qed
    qed
  qed
qed

subsection \<open>Sessions\<close>

lemma hasattr_format_str: "hasattr_format v = isinstance_str v"
  by (cases v) simp_all

lemma finish_unbound: "finish fmt silent s c n None = ([], Inl UnboundLocalError)"
  by (simp add: finish_def)

lemma finish_terminal:
  assumes "isinstance_str (val r) \<Longrightarrow> \<not> isl (format_end fmt r (c - s) n)"
  shows "snd (finish fmt silent s c n (Some r)) = Inr r"
proof (cases "isinstance_str (val r)")
  case False
  then show ?thesis
    by (simp add: finish_def print_end_message_def hasattr_format_str)
next
  case True
  with assms obtain m where "format_end fmt r (c - s) n = Inr m"
    by (cases "format_end fmt r (c - s) n") auto
  with True show ?thesis
    by (simp add: finish_def print_end_message_def hasattr_format_str)
qed

lemma in_time_append:
  "in_time deadline t (xs @ ys) =
     (in_time deadline t xs \<and> in_time deadline (last (t # samples xs)) ys)"
proof (induction xs arbitrary: t)
  case Nil
  show ?case by simp
next
  case (Cons e xs)
  then show ?case by (cases e) auto
qed

lemma in_time_quiet:
  "invocations ys = [] \<Longrightarrow> samples ys = [] \<Longrightarrow> in_time deadline t ys"
proof (induction ys)
  case Nil
  show ?case by simp
next
  case (Cons e ys)
  then show ?case by (cases e) auto
qed

lemma StoppedClock_time_Inr:
  "StoppedClock_time clk u = (Inr s, clk1, u1) \<Longrightarrow>
   \<exists>tick. clk = tick # clk1 \<and> (\<forall>t e. tick \<noteq> Raising t e)"
  by (cases "(clk, u)" rule: StoppedClock_time.cases) auto

lemma StoppedClock_time_Inl:
  "StoppedClock_time clk u = (Inl e, clk1, u1) \<Longrightarrow>
   clk = [] \<or> (\<exists>t. clk = Raising t e # clk1)"
  by (cases "(clk, u)" rule: StoppedClock_time.cases) auto

lemma same_tail_head: "pre @ x # post = y # post \<Longrightarrow> pre = [] \<and> x = y"
proof -
  assume "pre @ x # post = y # post"
  then have "(pre @ [x]) @ post = [y] @ post" by simp
  then have "pre @ [x] = [y]" by (simp only: append_same_eq)
  then show ?thesis by (cases pre) auto
qed

lemma same_tail_none: "pre @ x # post \<noteq> post"
proof
  assume "pre @ x # post = post"
  then have "(pre @ [x]) @ post = [] @ post" by simp
  then have "pre @ [x] = []" by (simp only: append_same_eq)
  then show False by simp
qed

lemma loop_clock_raise:
  "\<forall>pre. clk = pre @ Raising t e # post \<longrightarrow>
     loop_clock (retry_loop f a delay silent deadline current_time count result clk u) = post \<longrightarrow>
     locals (retry_loop f a delay silent deadline current_time count result clk u) = Inl e"
proof (induction current_time count result clk u
        rule: loop_induct [where f = f and a = a and deadline = deadline])
  case (over current_time count result clk u)
  then have "loop_clock (retry_loop f a delay silent deadline current_time count result clk u) = clk"
    by (simp add: loop_over)
  then show ?case using same_tail_none by metis
next
  case (break current_time count result clk u r u1)
  then have "loop_clock (retry_loop f a delay silent deadline current_time count result clk u) = clk"
    by (simp add: loop_break)
  then show ?case using same_tail_none by metis
next
  case (clock_error current_time count result clk u r u1 e' clk2 u2)
  then have x: "loop_clock (retry_loop f a delay silent deadline current_time count result clk u) = clk2"
    "locals (retry_loop f a delay silent deadline current_time count result clk u) = Inl e'"
    by (simp_all add: loop_clock_error)
  from clock_error(4) have shape: "clk = [] \<or> (\<exists>t. clk = Raising t e' # clk2)"
    by (rule StoppedClock_time_Inl)
  show ?case
  proof (intro allI impI)
    fix pre
    assume c: "clk = pre @ Raising t e # post"
      and l: "loop_clock (retry_loop f a delay silent deadline current_time count result clk u) = post"
    from c have "clk \<noteq> []" by simp
    with shape obtain t' where "clk = Raising t' e' # clk2" by blast
    with c l x(1) have "pre @ Raising t e # post = Raising t' e' # post" by metis
    then have "Raising t e = Raising t' e'" by (blast dest: same_tail_head)
    with x(2)
    show "locals (retry_loop f a delay silent deadline current_time count result clk u) = Inl e"
      by simp
  qed
next
  case (again current_time count result clk u r u1 t' clk2 u2)
  from again(4) have "\<exists>tick. clk = tick # clk2 \<and> (\<forall>t e. tick \<noteq> Raising t e)"
    by (rule StoppedClock_time_Inr)
  then obtain tick where tick: "clk = tick # clk2" "\<forall>t e. tick \<noteq> Raising t e"
    by (elim exE conjE)
  from again(1-4) have x:
    "loop_clock (retry_loop f a delay silent deadline current_time count result clk u) =
     loop_clock (retry_loop f a delay silent deadline t' (Suc count) (Some r) clk2 u2)"
    "locals (retry_loop f a delay silent deadline current_time count result clk u) =
     locals (retry_loop f a delay silent deadline t' (Suc count) (Some r) clk2 u2)"
    by (simp_all add: loop_again)
  show ?case
  proof (intro allI impI)
    fix pre
    assume c: "clk = pre @ Raising t e # post"
      and l: "loop_clock (retry_loop f a delay silent deadline current_time count result clk u) = post"
    from c tick(1) have eq: "pre @ Raising t e # post = tick # clk2" by metis
    have "\<exists>pre'. clk2 = pre' @ Raising t e # post"
    proof (cases pre)
      case Nil
      with eq have "tick = Raising t e" by simp
      with tick(2) show ?thesis by blast
    next
      case (Cons p pre')
      with eq have "clk2 = pre' @ Raising t e # post" by simp
      then show ?thesis by blast
    qed
    then obtain pre' where "clk2 = pre' @ Raising t e # post" by blast
    moreover from l x(1)
    have "loop_clock (retry_loop f a delay silent deadline t' (Suc count) (Some r) clk2 u2) = post"
      by metis
    ultimately have "locals (retry_loop f a delay silent deadline t' (Suc count) (Some r) clk2 u2) = Inl e"
      using again.IH by blast
    with x(2)
    show "locals (retry_loop f a delay silent deadline current_time count result clk u) = Inl e"
      by simp
  qed
qed

text \<open>A call that returns a result went through the loop and the end of \<^verbatim>\<open>f_retry\<close>.\<close>

lemma f_retry_returned:
  fixes f :: "'a \<Rightarrow> 's \<Rightarrow> result \<times> 's"
  assumes "returned (f_retry fmt f timeout delay start_message silent a clk u) = Inr r"
  obtains s clk1 u1 c n where
    "StoppedClock_time clk u = (Inr s, clk1, u1)"
    "locals (retry_loop f a delay silent (s + timeout) s 0 None clk1 u1) = Inr (c, n, Some r)"
    "events (f_retry fmt f timeout delay start_message silent a clk u) =
       Sample s # fst (announce_start fmt start_message silent s)
         @ loop_events (retry_loop f a delay silent (s + timeout) s 0 None clk1 u1)
         @ (if silent then [] else fst (print_end_message fmt r (c - s) n))"
proof (cases rule: f_retry_cases [of clk u fmt f timeout delay start_message silent a])
  case (entry_error e clk1 u1)
  with assms show ?thesis by simp
next
  case (start_error s clk1 u1 e)
  with assms show ?thesis by simp
next
  case (loop_error s clk1 u1 e)
  with assms show ?thesis by simp
next
  case (finished s clk1 u1 c n res)
  with assms have "snd (finish fmt silent s c n res) = Inr r" by simp
  then have res: "res = Some r" by (rule finish_returns)
  with finished show ?thesis
    by (intro that [of s clk1 u1 c n]) (simp_all add: finish_events)
qed

lemma error_messages_simps [simp]:
  "error_messages [] = []"
  "error_messages (e # evs) = printed_err e @ error_messages evs"
  "error_messages (xs @ ys) = error_messages xs @ error_messages ys"
  by (simp_all add: error_messages_def)

lemma finish_written_cases:
  "stdout_written (fst (finish fmt False s c n res)) = (case res of None \<Rightarrow> [] | Some r \<Rightarrow> ''\<newline>'')"
  by (simp add: finish_events split: option.splits)

lemma stdout_of_session:
  fixes f :: "'a \<Rightarrow> 's \<Rightarrow> result \<times> 's"
  shows "(\<exists>rest. stdout_written (events (f_retry fmt f timeout delay start_message False a clk u)) =
            progress_text (length (filter isinstance_NotReady
              (invocations (events (f_retry fmt f timeout delay start_message False a clk u)))))
            @ rest \<and> (rest = [] \<or> rest = ''\<newline>'')) \<and>
         (returned (f_retry fmt f timeout delay start_message False a clk u) = Inr r \<longrightarrow>
            stdout_written (events (f_retry fmt f timeout delay start_message False a clk u)) =
            progress_text (length (filter isinstance_NotReady
              (invocations (events (f_retry fmt f timeout delay start_message False a clk u)))))
            @ ''\<newline>'')"
proof (cases rule: f_retry_cases [of clk u fmt f timeout delay start_message False a])
  case (entry_error e clk1 u1)
  then show ?thesis by (simp add: progress_text_def)
next
  case (start_error s clk1 u1 e)
  then show ?thesis by (simp add: progress_text_def)
next
  case (loop_error s clk1 u1 e)
  then show ?thesis
    by (simp add: loop_written ticks_text_progress)
next
  case (finished s clk1 u1 c n res)
  show ?thesis
  proof (cases res)
    case None
    with finished show ?thesis
      by (simp add: loop_written ticks_text_progress finish_written_cases finish_unbound)
  next
    case (Some r')
    with finished show ?thesis
      by (simp add: loop_written ticks_text_progress finish_written_cases)
  qed
qed

lemma markers_in: "rest = [] \<or> rest = ''\<newline>'' \<Longrightarrow>
  length (filter (\<lambda>c. c = CHR ''.'') (progress_text n @ rest)) = n"
  by (auto simp add: progress_text_markers)

lemma f_retry_invocations:
  fixes f :: "'a \<Rightarrow> 's \<Rightarrow> result \<times> 's"
  shows "list_all isinstance_NotReady
     (butlast (invocations (events (f_retry fmt f timeout delay start_message silent a clk u))))"
proof (cases rule: f_retry_cases [of clk u fmt f timeout delay start_message silent a])
  case (entry_error e clk1 u1)
  then show ?thesis by simp
next
  case (start_error s clk1 u1 e)
  then show ?thesis by simp
next
  case (loop_error s clk1 u1 e)
  then show ?thesis by (simp add: loop_butlast)
next
  case (finished s clk1 u1 c n res)
  then show ?thesis by (simp add: loop_butlast)
qed

section \<open>The claims\<close>

text \<open>
  C10. The callable that \<^verbatim>\<open>retry_decorator(timeout, delay, start_message, silent)\<close>
  makes of a function \<open>f\<close> is the callable that
  \<^verbatim>\<open>retry(f, timeout, delay, start_message, silent)\<close> returns: the two are the same
  function of the caller's arguments, the clock and the shared state, so they return the
  same result, make the same attempts and emit the same output.
\<close>

theorem decorator_is_retry:
  "retry_decorator fmt timeout delay start_message silent f =
   retry fmt f timeout delay start_message silent"
  by (simp add: retry_decorator_def)

text \<open>
  C7. The end announcement first writes a line break. A payload without a \<^verbatim>\<open>format\<close>
  attribute gets nothing more, and no error. A string payload is formatted with
  \<^verbatim>\<open>total_time\<close> and \<^verbatim>\<open>retries\<close>; the formatted message goes to standard output
  for a \<^verbatim>\<open>Success\<close>, to the error channel with the suffix \<^verbatim>\<open>"  Giving up."\<close> for a
  \<^verbatim>\<open>NotReady\<close>, and to the error channel as it is for a plain \<^verbatim>\<open>Failure\<close>.
\<close>

theorem end_announcement:
  "(\<exists>rest. fst (print_end_message fmt r t n) = Write ''\<newline>'' # rest) \<and>
   (\<not> hasattr_format (val r) \<longrightarrow> print_end_message fmt r t n = ([Write ''\<newline>''], Inr ())) \<and>
   (fmt s [(''total_time'', t), (''retries'', int n)] = Inr m \<longrightarrow>
      print_end_message fmt (Success (PyStr s)) t n =
        ([Write ''\<newline>'', Print m False], Inr ()) \<and>
      print_end_message fmt (NotReady (PyStr s)) t n =
        ([Write ''\<newline>'', Print (m @ ''  Giving up.'') True], Inr ()) \<and>
      print_end_message fmt (Failure (PyStr s)) t n =
        ([Write ''\<newline>'', Print m True], Inr ()))"
  by (simp add: print_end_message_def format_end_def print_now_def split: sum.splits)

theorem end_announcement_witness:
  "print_end_message str_format (Failure (PyInt 7)) 100 3 = ([Write ''\<newline>''], Inr ()) \<and>
   print_end_message str_format (Success (PyStr ''up after {total_time}s, {retries} tries'')) 100 3 =
     ([Write ''\<newline>'', Print ''up after 100s, 3 tries'' False], Inr ()) \<and>
   print_end_message str_format (NotReady (PyStr ''up after {total_time}s, {retries} tries'')) 100 3 =
     ([Write ''\<newline>'', Print ''up after 100s, 3 tries  Giving up.'' True], Inr ()) \<and>
   print_end_message str_format (Failure (PyStr ''up after {total_time}s, {retries} tries'')) 100 3 =
     ([Write ''\<newline>'', Print ''up after 100s, 3 tries'' True], Inr ())"
proof -
  have h: "str_format ''up after {total_time}s, {retries} tries''
             [(''total_time'', 100), (''retries'', int 3)] = Inr ''up after 100s, 3 tries''"
    by code_simp
  have a: "\<not> hasattr_format (val (Failure (PyInt 7)))" by simp
  from a h
    end_announcement [of str_format "Failure (PyInt 7)" 100 3
      "''up after {total_time}s, {retries} tries''" "''up after 100s, 3 tries''"]
  show ?thesis by simp
qed

text \<open>
  C5. The clock replays 200, 250, 300, 350, 500, 600, the timeout is 200 and the operation
  of the test suite keeps answering \<^verbatim>\<open>NotReady\<close>. The loop is left with
  \<^verbatim>\<open>current_time\<close> 500, four attempts counted and the \<^verbatim>\<open>NotReady\<close> as result; the
  call returns that \<^verbatim>\<open>NotReady\<close> after four invocations; four markers and the line
  break of the end announcement are written to standard output, and no message is printed
  there; the one message for the error channel reports 300 seconds and 4 retries and ends
  with \<^verbatim>\<open>Giving up.\<close>
\<close>

theorem test_retry_fails_after_5_times:
  "(let out = f_retry str_format check_value 200 4 None False ()
                (map Plain [200, 250, 300, 350, 500, 600]) (Some False);
        not_ready = NotReady (PyStr
          ''Check still not ready after {total_time} seconds and {retries} retries'')
    in locals (retry_loop check_value () 4 False (200 + 200) 200 0 None
                (map Plain [250, 300, 350, 500, 600]) (Some False)) =
         Inr (500, 4, Some not_ready) \<and>
       returned out = Inr not_ready \<and>
       invocations (events out) = [not_ready, not_ready, not_ready, not_ready] \<and>
       samples (events out) = [200, 250, 300, 350, 500] \<and>
       last (samples (events out)) - hd (samples (events out)) = 300 \<and>
       stdout_written (events out) = ''....\<newline>'' \<and>
       length (filter (\<lambda>c. c = CHR ''.'') (stdout_written (events out))) = 4 \<and>
       output_messages (events out) = [] \<and>
       error_messages (events out) =
         [''Check still not ready after 300 seconds and 4 retries  Giving up.''] \<and>
       suffix ''Giving up.'' (last (error_messages (events out))))"
  by code_simp




text \<open>
  C3, as amended. When the entry sample is not below the deadline (the timeout is zero or
  negative), the \<^verbatim>\<open>while\<close> condition fails before the first turn: the operation is
  never invoked and the call returns no result.
\<close>

theorem expired_at_entry:
  assumes "StoppedClock_time clk u = (Inr start_time, clk1, u1)"
    and "\<not> start_time < start_time + timeout"
  shows "invocations (events (f_retry fmt f timeout delay start_message silent a clk u)) = [] \<and>
         isl (returned (f_retry fmt f timeout delay start_message silent a clk u))"
proof -
  have loop: "retry_loop f a delay silent (start_time + timeout) start_time 0 None clk1 u1 =
      \<lparr>loop_events = [], loop_clock = clk1, loop_state = u1,
       locals = Inr (start_time, 0, None)\<rparr>"
    using assms(2) by (rule loop_over)
  show ?thesis
  proof (cases rule: f_retry_cases [of clk u fmt f timeout delay start_message silent a])
    case (entry_error e clk1 u1)
    with assms(1) show ?thesis by simp
  next
    case (start_error s clk1 u1 e)
    then show ?thesis by simp
  next
    case (loop_error s clk1' u1' e)
    with assms(1) loop show ?thesis by simp
  next
    case (finished s clk1' u1' c n res)
    with assms(1) loop show ?thesis by (simp add: finish_unbound)
  qed
qed

theorem expired_at_entry_witness:
  "invocations (events (f_retry str_format check_value (- 5) 4 (Some ''go'') False ()
      [Plain 200, Plain 250] (Some True))) = [] \<and>
   isl (returned (f_retry str_format check_value (- 5) 4 (Some ''go'') False ()
      [Plain 200, Plain 250] (Some True)))"
proof -
  have c: "StoppedClock_time [Plain 200, Plain 250] (Some True) = (Inr 200, [Plain 250], Some True)"
    by simp
  have t: "\<not> (200::int) < 200 + (- 5)" by simp
  show ?thesis
    using c t
      expired_at_entry [of "[Plain 200, Plain 250]" "Some True" 200 "[Plain 250]" "Some True"
        "- 5" str_format check_value 4 "Some ''go''" False "()"]
    by simp
qed

text \<open>
  With timeout 0 the operation of the test suite, which would answer \<^verbatim>\<open>Success\<close>, is
  not invoked, and the call ends in an exception.
\<close>

theorem expired_at_entry_counterexample:
  "invocations (events (f_retry str_format check_value 0 4 None True ()
      [Plain 200, Plain 250] (Some True))) = [] \<and>
   returned (f_retry str_format check_value 0 4 None True ()
      [Plain 200, Plain 250] (Some True)) = Inl UnboundLocalError"
  by code_simp



text \<open>
  C4. When a session that is not silent returns a result, its events end with the end
  announcement for that result, made with the last clock sample minus the first as total
  time and with the number of invocations of the operation as attempt count.
\<close>

theorem end_message_reports_attempts_and_time:
  fixes f :: "'a \<Rightarrow> 's \<Rightarrow> result \<times> 's"
  assumes "returned (f_retry fmt f timeout delay start_message silent a clk u) = Inr r"
    and "\<not> silent"
  shows "\<exists>pre. events (f_retry fmt f timeout delay start_message silent a clk u) =
           pre @ fst (print_end_message fmt r
             (last (samples (events (f_retry fmt f timeout delay start_message silent a clk u)))
                - hd (samples (events (f_retry fmt f timeout delay start_message silent a clk u))))
             (length (invocations (events (f_retry fmt f timeout delay start_message silent a clk u)))))"
proof -
  from assms(1) obtain s clk1 u1 c n where
    loc: "locals (retry_loop f a delay silent (s + timeout) s 0 None clk1 u1) = Inr (c, n, Some r)"
    and ev: "events (f_retry fmt f timeout delay start_message silent a clk u) =
       Sample s # fst (announce_start fmt start_message silent s)
         @ loop_events (retry_loop f a delay silent (s + timeout) s 0 None clk1 u1)
         @ (if silent then [] else fst (print_end_message fmt r (c - s) n))"
    by (rule f_retry_returned)
  let ?x = "retry_loop f a delay silent (s + timeout) s 0 None clk1 u1"
  from loop_count [OF loc] have n: "n = length (invocations (loop_events ?x))" by simp
  from loop_time [OF loc] have c: "c = last (s # samples (loop_events ?x))" .
  from ev assms(2)
  have ev': "events (f_retry fmt f timeout delay start_message silent a clk u) =
      (Sample s # fst (announce_start fmt start_message silent s) @ loop_events ?x)
        @ fst (print_end_message fmt r (c - s) n)"
    by simp
  have sam: "samples (events (f_retry fmt f timeout delay start_message silent a clk u)) =
      s # samples (loop_events ?x)"
    by (simp add: ev')
  have inv: "invocations (events (f_retry fmt f timeout delay start_message silent a clk u)) =
      invocations (loop_events ?x)"
    by (simp add: ev')
  from ev' show ?thesis
    unfolding sam inv list.sel c [symmetric] n [symmetric] by (rule exI)
qed

theorem end_message_reports_attempts_and_time_witness:
  "\<exists>pre. events (f_retry str_format check_value 200 4 None False ()
            [Plain 200, Plain 250, Effect 300 (set_value (Some True)), Plain 350, Plain 500]
            (Some False)) =
     pre @ [Write ''\<newline>'', Print ''Check succeeded after 100 seconds and 3 retries'' False]"
proof -
  let ?out = "f_retry str_format check_value 200 4 None False ()
            [Plain 200, Plain 250, Effect 300 (set_value (Some True)), Plain 350, Plain 500]
            (Some False)"
  let ?r = "Success (PyStr ''Check succeeded after {total_time} seconds and {retries} retries'')"
  have ret: "returned ?out = Inr ?r" by code_simp
  have ns: "\<not> False" by simp
  have sam: "samples (events ?out) = [200, 250, 300]" by code_simp
  have inv: "length (invocations (events ?out)) = 3" by code_simp
  have msg: "fst (print_end_message str_format ?r 100 3) =
      [Write ''\<newline>'', Print ''Check succeeded after 100 seconds and 3 retries'' False]"
    by code_simp
  from end_message_reports_attempts_and_time [OF ret ns]
  show ?thesis by (simp add: sam inv msg)
qed

text \<open>
  C6. In a session that is not silent, with \<open>N\<close> the number of \<^verbatim>\<open>NotReady\<close> answers,
  what \<^verbatim>\<open>sys.stdout.write\<close> wrote is the progress text of \<open>N\<close> markers (full lines of
  exactly 80 markers, each ended by a line break, and a last line of \<open>N mod 80\<close> markers),
  followed by nothing or by the line break of the end announcement; it holds exactly
  \<open>N\<close> markers; and when the call returns a result, the line break of the end
  announcement is there.
\<close>

theorem progress_markers_wrap:
  fixes f :: "'a \<Rightarrow> 's \<Rightarrow> result \<times> 's"
  assumes "\<not> silent"
  shows "(\<exists>rest. stdout_written (events (f_retry fmt f timeout delay start_message silent a clk u)) =
            progress_text (length (filter isinstance_NotReady
              (invocations (events (f_retry fmt f timeout delay start_message silent a clk u)))))
            @ rest \<and> (rest = [] \<or> rest = ''\<newline>'')) \<and>
         length (filter (\<lambda>c. c = CHR ''.'')
           (stdout_written (events (f_retry fmt f timeout delay start_message silent a clk u)))) =
         length (filter isinstance_NotReady
           (invocations (events (f_retry fmt f timeout delay start_message silent a clk u)))) \<and>
         (returned (f_retry fmt f timeout delay start_message silent a clk u) = Inr r \<longrightarrow>
            stdout_written (events (f_retry fmt f timeout delay start_message silent a clk u)) =
            progress_text (length (filter isinstance_NotReady
              (invocations (events (f_retry fmt f timeout delay start_message silent a clk u)))))
            @ ''\<newline>'')"
proof -
  from assms have silent: "silent = False" by simp
  note s = stdout_of_session [of fmt f timeout delay start_message a clk u r]
  from s obtain rest where
    "stdout_written (events (f_retry fmt f timeout delay start_message False a clk u)) =
       progress_text (length (filter isinstance_NotReady
         (invocations (events (f_retry fmt f timeout delay start_message False a clk u))))) @ rest"
    "rest = [] \<or> rest = ''\<newline>''"
    by blast
  then have "length (filter (\<lambda>c. c = CHR ''.'')
           (stdout_written (events (f_retry fmt f timeout delay start_message False a clk u)))) =
         length (filter isinstance_NotReady
           (invocations (events (f_retry fmt f timeout delay start_message False a clk u))))"
    by (simp only: markers_in)
  with s show ?thesis unfolding silent by blast
qed

theorem progress_markers_wrap_witness:
  "stdout_written (events (f_retry str_format check_value 200 4 None False ()
      (map Plain [200, 250, 300, 350, 500, 600]) (Some False))) = progress_text 4 @ ''\<newline>'' \<and>
   length (filter (\<lambda>c. c = CHR ''.'') (stdout_written (events (f_retry str_format check_value
      200 4 None False () (map Plain [200, 250, 300, 350, 500, 600]) (Some False))))) = 4"
proof -
  let ?out = "f_retry str_format check_value 200 4 None False ()
      (map Plain [200, 250, 300, 350, 500, 600]) (Some False)"
  let ?r = "NotReady (PyStr
           ''Check still not ready after {total_time} seconds and {retries} retries'')"
  have ns: "\<not> False" by simp
  have ret: "returned ?out = Inr ?r" by code_simp
  have n: "length (filter isinstance_NotReady (invocations (events ?out))) = 4" by code_simp
  from progress_markers_wrap [OF ns, of str_format check_value 200 4 None "()"
      "map Plain [200, 250, 300, 350, 500, 600]" "Some False" ?r] ret
  show ?thesis unfolding n by blast
qed

text \<open>
  C8. When the session consumes a clock entry that raises (what is left of the clock is
  what follows that entry), the exception of that entry ends the call: it is not caught,
  and no result is returned.
\<close>

theorem clock_error_propagates:
  fixes f :: "'a \<Rightarrow> 's \<Rightarrow> result \<times> 's"
  assumes "clk = pre @ Raising t e # post"
    and "clock_left (f_retry fmt f timeout delay start_message silent a clk u) = post"
  shows "returned (f_retry fmt f timeout delay start_message silent a clk u) = Inl e"
proof (cases rule: f_retry_cases [of clk u fmt f timeout delay start_message silent a])
  case (entry_error e' clk1 u1)
  from assms(1) have "clk \<noteq> []" by simp
  with StoppedClock_time_Inl [OF entry_error(1)] obtain t' where "clk = Raising t' e' # clk1"
    by blast
  moreover from entry_error(2) assms(2) have "clk1 = post" by simp
  ultimately have "pre @ Raising t e # post = Raising t' e' # post" using assms(1) by metis
  then have "Raising t e = Raising t' e'" by (blast dest: same_tail_head)
  with entry_error(2) show ?thesis by simp
next
  case (start_error s clk1 u1 e')
  from StoppedClock_time_Inr [OF start_error(1)]
  obtain tick where tick: "clk = tick # clk1" "\<forall>t e. tick \<noteq> Raising t e"
    by (elim exE conjE)
  from start_error(3) assms(2) have "clk1 = post" by simp
  with tick(1) assms(1) have "pre @ Raising t e # post = tick # post" by metis
  then have "Raising t e = tick" by (blast dest: same_tail_head)
  with tick(2) show ?thesis by blast
next
  case (loop_error s clk1 u1 e')
  let ?x = "retry_loop f a delay silent (s + timeout) s 0 None clk1 u1"
  from StoppedClock_time_Inr [OF loop_error(1)]
  obtain tick where tick: "clk = tick # clk1" "\<forall>t e. tick \<noteq> Raising t e"
    by (elim exE conjE)
  from tick(1) assms(1) have eq: "pre @ Raising t e # post = tick # clk1" by metis
  have "\<exists>pre'. clk1 = pre' @ Raising t e # post"
  proof (cases pre)
    case Nil
    with eq have "tick = Raising t e" by simp
    with tick(2) show ?thesis by blast
  next
    case (Cons p pre')
    with eq have "clk1 = pre' @ Raising t e # post" by simp
    then show ?thesis by blast
  qed
  then obtain pre' where c1: "clk1 = pre' @ Raising t e # post" by blast
  from loop_error(4) assms(2) have "loop_clock ?x = post" by simp
  with c1 loop_clock_raise [of clk1 t e post f a delay silent "s + timeout" s 0 None u1]
  have "locals ?x = Inl e" by blast
  with loop_error(3,4) show ?thesis by simp
next
  case (finished s clk1 u1 c n res)
  let ?x = "retry_loop f a delay silent (s + timeout) s 0 None clk1 u1"
  from StoppedClock_time_Inr [OF finished(1)]
  obtain tick where tick: "clk = tick # clk1" "\<forall>t e. tick \<noteq> Raising t e"
    by (elim exE conjE)
  from tick(1) assms(1) have eq: "pre @ Raising t e # post = tick # clk1" by metis
  have "\<exists>pre'. clk1 = pre' @ Raising t e # post"
  proof (cases pre)
    case Nil
    with eq have "tick = Raising t e" by simp
    with tick(2) show ?thesis by blast
  next
    case (Cons p pre')
    with eq have "clk1 = pre' @ Raising t e # post" by simp
    then show ?thesis by blast
  qed
  then obtain pre' where c1: "clk1 = pre' @ Raising t e # post" by blast
  from finished(4) assms(2) have "loop_clock ?x = post" by simp
  with c1 loop_clock_raise [of clk1 t e post f a delay silent "s + timeout" s 0 None u1]
  have "locals ?x = Inl e" by blast
  with finished(3) show ?thesis by simp
qed

theorem clock_error_propagates_witness:
  "returned (f_retry str_format check_value 200 4 None False ()
      [Plain 200, Plain 250, Raising 300 (Injected ''clock failed''), Plain 350] (Some False)) =
   Inl (Injected ''clock failed'')"
proof -
  have c: "[Plain 200, Plain 250, Raising 300 (Injected ''clock failed''), Plain 350] =
      [Plain 200, Plain 250] @ Raising 300 (Injected ''clock failed'') # [Plain 350]"
    by simp
  have l: "clock_left (f_retry str_format check_value 200 4 None False ()
      [Plain 200, Plain 250, Raising 300 (Injected ''clock failed''), Plain 350] (Some False)) =
      [Plain 350]"
    by code_simp
  from c l show ?thesis by (rule clock_error_propagates)
qed



end
